theory Spec2Isabelle
  imports Main "HOL-Library.Word"
begin

section \<open>Strings and numbers of the upload pipeline\<close>

text \<open>
  A JavaScript string is a sequence of UTF-16 code units. A code unit is modelled as a
  natural number, so that every string the handlers can receive (also one with
  characters outside ASCII) is a value of the model. \<open>js\<close> turns an Isabelle string
  literal into such a sequence. Timestamps (\<open>Date.now()\<close>, \<open>mtimeMs\<close>) are integers
  counting milliseconds; the bytes of an uploaded file are 8-bit words.
\<close>

type_synonym jstring = "nat list"

type_synonym byte = "8 word"

definition js :: "string \<Rightarrow> jstring" where
  "js s = map of_char s"

abbreviation SLASH :: nat where "SLASH \<equiv> 47"
abbreviation DOT :: nat where "DOT \<equiv> 46"
abbreviation DASH :: nat where "DASH \<equiv> 45"

text \<open>The character class \<^verbatim>\<open>[a-zA-Z0-9]\<close> of the sanitizer's regular expression.\<close>

definition is_alnum :: "nat \<Rightarrow> bool" where
  "is_alnum c = ((97 \<le> c \<and> c \<le> 122) \<or> (65 \<le> c \<and> c \<le> 90) \<or> (48 \<le> c \<and> c \<le> 57))"

text \<open>\<^verbatim>\<open>s.replace(/[^a-zA-Z0-9]/g, '-')\<close>: the expression has no \<open>u\<close> flag, so it
  works code unit by code unit.\<close>

definition replace_non_alnum :: "jstring \<Rightarrow> jstring" where
  "replace_non_alnum s = map (\<lambda>c. if is_alnum c then c else DASH) s"

text \<open>
  \<open>String.prototype.toLowerCase\<close>. The ASCII capitals map to their small letters. Two
  characters outside ASCII have a lower case inside ASCII: the Kelvin sign (U+212A) maps
  to \<open>k\<close>, and the dotted capital I (U+0130) to \<open>i\<close> followed by U+0307. Every other
  code unit outside ASCII is left as it is here; JavaScript maps some of them to other
  code units outside ASCII, a difference that no comparison in this code can see, since
  every string compared with a lower-cased one is ASCII. It shows only in the output
  name of the processing handler, for an \<open>outputFormat\<close> with such characters.
\<close>

definition lower_unit :: "nat \<Rightarrow> jstring" where
  "lower_unit c =
     (if 65 \<le> c \<and> c \<le> 90 then [c + 32]
      else if c = 0x212A then [0x6B]
      else if c = 0x130 then [0x69, 0x307]
      else [c])"

definition toLowerCase :: "jstring \<Rightarrow> jstring" where
  "toLowerCase s = concat (map lower_unit s)"

text \<open>\<open>toUpperCase\<close>, on the ASCII letters only (it is applied to the extension of a
  generated name, for the \<open>format\<close> field of the metadata).\<close>

definition toUpperCase :: "jstring \<Rightarrow> jstring" where
  "toUpperCase s = map (\<lambda>c. if 97 \<le> c \<and> c \<le> 122 then c - 32 else c) s"

text \<open>An integer in a template literal: its decimal digits, with a sign when negative.\<close>

fun decimal :: "nat \<Rightarrow> jstring" where
  "decimal n = (if n < 10 then [48 + n] else decimal (n div 10) @ [48 + n mod 10])"

declare decimal.simps [simp del]

definition number_toString :: "int \<Rightarrow> jstring" where
  "number_toString i = (if i < 0 then DASH # decimal (nat (- i)) else decimal (nat i))"

section \<open>Paths\<close>

text \<open>
  \<open>path.extname\<close> and \<open>path.basename\<close> are functions of the Node.js library, in
  their POSIX form (the separator is \<open>/\<close>). Both work on the last component of the
  path: trailing separators are dropped, and the component is what follows the last
  separator that remains.
\<close>

definition last_component :: "jstring \<Rightarrow> jstring" where
  "last_component p =
     rev (takeWhile (\<lambda>c. c \<noteq> SLASH) (dropWhile (\<lambda>c. c = SLASH) (rev p)))"

text \<open>
  \<open>extname\<close>: from the last dot of the last component to its end; empty when the
  component has no dot, when its only dot is its first character, or when the component
  is \<open>..\<close>. \<open>tail_r\<close> holds the characters after the last dot and \<open>stem_r\<close> those
  before it, both reversed.
\<close>

definition extname :: "jstring \<Rightarrow> jstring" where
  "extname p =
     (let comp = last_component p;
          tail_r = takeWhile (\<lambda>c. c \<noteq> DOT) (rev comp);
          stem_r = drop (Suc (length tail_r)) (rev comp)
      in if DOT \<in> set comp \<and> stem_r \<noteq> [] \<and> comp \<noteq> [DOT, DOT]
           then DOT # rev tail_r
         else [])"

text \<open>The last component together with the separators that trail it.\<close>

definition component_with_slashes :: "jstring \<Rightarrow> jstring" where
  "component_with_slashes p =
     rev (takeWhile (\<lambda>c. c = SLASH) (rev p) @
          takeWhile (\<lambda>c. c \<noteq> SLASH) (dropWhile (\<lambda>c. c = SLASH) (rev p)))"

text \<open>
  \<open>basename p suffix\<close>: the last component, without \<open>suffix\<close> when the component ends
  with it and is longer than it. The library compares from the end and stops at the
  separator, which gives the two special results below: the empty string when the
  suffix is the whole path, and the component with its trailing separators when the
  component is a proper end of the suffix.
\<close>

definition basename :: "jstring \<Rightarrow> jstring \<Rightarrow> jstring" where
  "basename p suffix =
     (let comp = last_component p in
      if suffix = [] \<or> length p < length suffix then comp
      else if suffix = p then []
      else if length suffix < length comp
              \<and> drop (length comp - length suffix) comp = suffix
        then take (length comp - length suffix) comp
      else if length comp < length suffix
              \<and> drop (length suffix - length comp) suffix = comp
        then component_with_slashes p
      else comp)"

section \<open>Rate limiter\<close>

text \<open>
  \<^verbatim>\<open>const rateLimit = new Map<string, { count: number; resetTime: number }>();\<close>
  The map is process-wide state; the model passes it in and returns it updated.
\<close>

record userLimit =
  count :: nat
  resetTime :: int

type_synonym rateLimit = "jstring \<rightharpoonup> userLimit"

definition WINDOW_MS :: int where
  "WINDOW_MS = 15 * 60 * 1000"

definition MAX_REQUESTS :: nat where
  "MAX_REQUESTS = 100"

text \<open>
  \<open>checkRateLimit\<close> of the upload route (the same body in both variants that have it).
  \<open>now\<close> is the value of \<open>Date.now()\<close> read by the call. The entry fetched from the
  map (or the fresh default) is updated and stored back, except on the denying branch,
  which returns before anything is written.
\<close>

definition checkRateLimit :: "int \<Rightarrow> jstring \<Rightarrow> rateLimit \<Rightarrow> bool \<times> rateLimit" where
  "checkRateLimit now ip rl =
     (let userLimit = (case rl ip of
                         Some e \<Rightarrow> e
                       | None \<Rightarrow> \<lparr>count = 0, resetTime = now + WINDOW_MS\<rparr>)
      in if now > resetTime userLimit
           then (True, rl(ip \<mapsto> userLimit\<lparr>count := 1, resetTime := now + WINDOW_MS\<rparr>))
         else if count userLimit \<ge> MAX_REQUESTS
           then (False, rl)
         else (True, rl(ip \<mapsto> userLimit\<lparr>count := count userLimit + 1\<rparr>)))"

text \<open>Consecutive calls for one key, at the given clock readings, threading the map.\<close>

fun checkRateLimit_calls :: "int list \<Rightarrow> jstring \<Rightarrow> rateLimit \<Rightarrow> bool list \<times> rateLimit" where
  "checkRateLimit_calls [] ip rl = ([], rl)"
| "checkRateLimit_calls (now # ts) ip rl =
     (let (ok, rl') = checkRateLimit now ip rl;
          (oks, rl'') = checkRateLimit_calls ts ip rl'
      in (ok # oks, rl''))"

section \<open>Filename sanitizer\<close>

text \<open>
  \<^verbatim>\<open>const uniqueId = `${Date.now()}-${Math.random().toString(36).slice(2)}`;\<close>
  The clock reading \<open>now\<close> and the random number are inputs of the model. The random
  number is given by the digits of its fraction in base 36 (each taken modulo 36), which
  is what \<open>toString(36).slice(2)\<close> prints, with \<open>0-9\<close> and \<open>a-z\<close> as digits.
\<close>

definition digit36 :: "nat \<Rightarrow> nat" where
  "digit36 d = (if d < 10 then 48 + d else 87 + d)"

definition random_toString36 :: "nat list \<Rightarrow> jstring" where
  "random_toString36 ds = map (\<lambda>d. digit36 (d mod 36)) ds"

definition uniqueId :: "int \<Rightarrow> nat list \<Rightarrow> jstring" where
  "uniqueId now rnd = number_toString now @ [DASH] @ random_toString36 rnd"

text \<open>
  \<^verbatim>\<open>path.basename(originalName, extension).replace(/[^a-zA-Z0-9]/g, '-').toLowerCase()\<close>
  with \<open>extension = path.extname(originalName)\<close>, as in every variant.
\<close>

definition baseFilename :: "jstring \<Rightarrow> jstring" where
  "baseFilename originalName =
     toLowerCase (replace_non_alnum (basename originalName (extname originalName)))"

text \<open>The variants with the rate limiter put the token after the base name:
  \<^verbatim>\<open>`${baseFilename}-${uniqueId}${extension}`\<close>.\<close>

definition generateSafeFilename :: "int \<Rightarrow> nat list \<Rightarrow> jstring \<Rightarrow> jstring" where
  "generateSafeFilename now rnd originalName =
     baseFilename originalName @ [DASH] @ uniqueId now rnd @ extname originalName"

text \<open>\<open>app/api/upload/route.ts\<close> puts it in front:
  \<^verbatim>\<open>`${uniqueId}-${baseFilename}${extension}`\<close>.\<close>

definition generateSafeFilename_route :: "int \<Rightarrow> nat list \<Rightarrow> jstring \<Rightarrow> jstring" where
  "generateSafeFilename_route now rnd originalName =
     uniqueId now rnd @ [DASH] @ baseFilename originalName @ extname originalName"

text \<open>The characters a sanitized name may contain according to the specification:
  letters, digits, dot, dash and underscore.\<close>

definition safe_char :: "nat \<Rightarrow> bool" where
  "safe_char c = (is_alnum c \<or> c = DOT \<or> c = DASH \<or> c = 95)"

text \<open>The characters of a sanitized base name and of a uniqueness token.\<close>

definition token_char :: "nat \<Rightarrow> bool" where
  "token_char c = ((97 \<le> c \<and> c \<le> 122) \<or> (48 \<le> c \<and> c \<le> 57) \<or> c = DASH)"

text \<open>Whether a name contains two dots in a row.\<close>

fun has_dotdot :: "jstring \<Rightarrow> bool" where
  "has_dotdot (x # y # zs) = ((x = DOT \<and> y = DOT) \<or> has_dotdot (y # zs))"
| "has_dotdot _ = False"

section \<open>File validator\<close>

text \<open>A \<open>File\<close> of the form data: its name, its declared MIME type and its bytes.
  \<open>file.size\<close> is the number of bytes.\<close>

record File =
  file_name :: jstring
  file_type :: jstring
  file_bytes :: "byte list"

definition file_size :: "File \<Rightarrow> nat" where
  "file_size f = length (file_bytes f)"

definition MAX_FILE_SIZE :: nat where
  "MAX_FILE_SIZE = 10 * 1024 * 1024"

definition ALLOWED_TYPES :: "jstring set" where
  "ALLOWED_TYPES = {js ''image/jpeg'', js ''image/png'', js ''image/webp''}"

definition ALLOWED_EXTENSIONS :: "jstring set" where
  "ALLOWED_EXTENSIONS = {js ''.jpg'', js ''.jpeg'', js ''.png'', js ''.webp''}"

definition signature_jpeg :: "byte list" where
  "signature_jpeg = [0xFF, 0xD8, 0xFF]"

definition signature_png :: "byte list" where
  "signature_png = [0x89, 0x50, 0x4E, 0x47]"

definition signature_webp :: "byte list" where
  "signature_webp = [0x52, 0x49, 0x46, 0x46]"

text \<open>
  \<^verbatim>\<open>bytes.every((byte, i) => byte === signature[i])\<close>: true when every byte that is
  present equals the signature byte at its index, so true for no bytes at all. Past the
  end of the signature the comparison is with \<open>undefined\<close> and fails.
\<close>

fun every_matches :: "byte list \<Rightarrow> byte list \<Rightarrow> bool" where
  "every_matches [] signature = True"
| "every_matches (b # bs) [] = False"
| "every_matches (b # bs) (s # signature) = (b = s \<and> every_matches bs signature)"

text \<open>
  \<open>validateFileType\<close> of the two variants that read the magic number. The declared
  type and the extension are each looked up in their set; then the first four bytes are
  compared with the three signatures in turn. (The \<open>catch\<close> of the source returns
  false when reading the bytes throws, which an in-memory \<open>File\<close> does not do.)
\<close>

definition validateFileType :: "File \<Rightarrow> bool" where
  "validateFileType f =
     (let extension = toLowerCase (extname (file_name f)) in
      if file_type f \<notin> ALLOWED_TYPES \<or> extension \<notin> ALLOWED_EXTENSIONS then False
      else
        let fileSignature = take 4 (file_bytes f) in
          every_matches (take 3 fileSignature) signature_jpeg
        \<or> every_matches fileSignature signature_png
        \<or> every_matches (take 4 fileSignature) signature_webp)"

text \<open>\<open>validateFileType\<close> of \<open>app/api/upload/route.ts\<close>: type and extension only.\<close>

definition validateFileType_route :: "File \<Rightarrow> bool" where
  "validateFileType_route f =
     (let extension = toLowerCase (extname (file_name f)) in
      file_type f \<in> ALLOWED_TYPES \<and> extension \<in> ALLOWED_EXTENSIONS)"

section \<open>Upload handler\<close>

text \<open>
  What the handler reads from outside is an input of the model. The request carries the
  \<open>x-forwarded-for\<close> header and the outcome of \<open>req.formData()\<close>: either what was
  thrown, or the value of \<open>data.get('file')\<close> (absent, a string, or a \<open>File\<close>). The
  environment gives the clock and random readings and the outcome of each file-system
  call. A library call that fails throws an \<open>Error\<close> with a message; the handler's
  \<open>catch\<close> also provides for a thrown value that is no \<open>Error\<close>.
\<close>

datatype thrown = JsError jstring | NonError

datatype exn = FileUploadError jstring jstring nat | Lib thrown

datatype form_value = FormString jstring | FormFile File

record request =
  req_forwarded_for :: "jstring option"
  req_form :: "thrown + form_value option"

record stats =
  stats_size :: nat
  stats_mtime :: int

record upload_env =
  env_now :: int
  env_mkdir :: "thrown option"
  env_name_now :: int
  env_name_rnd :: "nat list"
  env_writeFile :: "thrown option"
  env_stat :: "thrown + stats"

text \<open>The JSON body of a response: a key that is absent is \<open>None\<close>. The headers of
  the responses are left out.\<close>

record metadata =
  meta_width :: nat
  meta_height :: nat
  meta_size :: nat
  meta_format :: jstring
  meta_lastModified :: int

record upload_data =
  data_filename :: jstring
  data_url :: jstring
  data_metadata :: metadata

record upload_body =
  b_success :: bool
  b_filename :: "jstring option"
  b_url :: "jstring option"
  b_size :: "nat option"
  b_type :: "jstring option"
  b_data :: "upload_data option"
  b_error :: "jstring option"
  b_details :: "jstring option"
  b_code :: "jstring option"

record response =
  status :: nat
  body :: upload_body

definition failure_body :: "jstring \<Rightarrow> jstring option \<Rightarrow> jstring option \<Rightarrow> upload_body" where
  "failure_body err details code =
     \<lparr>b_success = False, b_filename = None, b_url = None, b_size = None, b_type = None,
      b_data = None, b_error = Some err, b_details = details, b_code = code\<rparr>"

definition success_body :: "jstring \<Rightarrow> nat \<Rightarrow> jstring \<Rightarrow> upload_body" where
  "success_body filename sz ty =
     \<lparr>b_success = True, b_filename = Some filename, b_url = Some (js ''/uploads/'' @ filename),
      b_size = Some sz, b_type = Some ty, b_data = None, b_error = None, b_details = None,
      b_code = None\<rparr>"

definition success_body_data :: "jstring \<Rightarrow> stats \<Rightarrow> upload_body" where
  "success_body_data filename st =
     \<lparr>b_success = True, b_filename = None, b_url = None, b_size = None, b_type = None,
      b_data = Some \<lparr>data_filename = filename, data_url = js ''/uploads/'' @ filename,
                     data_metadata = \<lparr>meta_width = 0, meta_height = 0, meta_size = stats_size st,
                                       meta_format = toUpperCase (drop 1 (extname filename)),
                                       meta_lastModified = stats_mtime st\<rparr>\<rparr>,
      b_error = None, b_details = None, b_code = None\<rparr>"

text \<open>\<^verbatim>\<open>req.headers.get('x-forwarded-for') || 'unknown'\<close>\<close>

definition client_ip :: "request \<Rightarrow> jstring" where
  "client_ip req =
     (case req_forwarded_for req of
        None \<Rightarrow> js ''unknown''
      | Some h \<Rightarrow> if h = [] then js ''unknown'' else h)"

text \<open>\<^verbatim>\<open>`File size exceeds maximum limit of ${MAX_FILE_SIZE / 1024 / 1024}MB`\<close>\<close>

definition size_limit_message :: jstring where
  "size_limit_message =
     js ''File size exceeds maximum limit of ''
       @ number_toString (int (MAX_FILE_SIZE div 1024 div 1024)) @ js ''MB''"

definition size_limit_message_p1 :: jstring where
  "size_limit_message_p1 =
     js ''File size exceeds ''
       @ number_toString (int (MAX_FILE_SIZE div 1024 div 1024)) @ js ''MB limit''"

text \<open>The \<open>catch\<close> block shared by the two variants with \<open>FileUploadError\<close>: status,
  message and code come from the error when it is a \<open>FileUploadError\<close>.\<close>

definition catch_upload :: "exn \<Rightarrow> response" where
  "catch_upload e =
     (case e of
        FileUploadError msg code statusCode \<Rightarrow>
          \<lparr>status = statusCode, body = failure_body msg None (Some code)\<rparr>
      | Lib (JsError msg) \<Rightarrow>
          \<lparr>status = 500, body = failure_body msg None (Some (js ''UNKNOWN_ERROR''))\<rparr>
      | Lib NonError \<Rightarrow>
          \<lparr>status = 500,
           body = failure_body (js ''Upload failed'') None (Some (js ''UNKNOWN_ERROR''))\<rparr>)"

text \<open>
  The steps of the handler in \<open>unnamed/part_000\<close> after the rate limit, up to the
  response or the first \<open>throw\<close>. \<open>getFileStats\<close> turns a failing \<open>stat\<close> into
  \<open>null\<close>, which the handler reports as \<open>WRITE_ERROR\<close>. The sweep that follows
  (\<open>cleanupOldFiles\<close>, below) catches whatever it throws and has no part in the
  response.
\<close>

definition upload_p0 :: "upload_env \<Rightarrow> request \<Rightarrow> exn + response" where
  "upload_p0 env req =
     (case env_mkdir env of
        Some t \<Rightarrow> Inl (Lib t)
      | None \<Rightarrow>
        (case req_form req of
           Inl t \<Rightarrow> Inl (Lib t)
         | Inr None \<Rightarrow>
             Inl (FileUploadError (js ''No file provided or invalid file format'')
                    (js ''INVALID_FILE'') 400)
         | Inr (Some (FormString s)) \<Rightarrow>
             Inl (FileUploadError (js ''No file provided or invalid file format'')
                    (js ''INVALID_FILE'') 400)
         | Inr (Some (FormFile file)) \<Rightarrow>
             if file_size file > MAX_FILE_SIZE
               then Inl (FileUploadError size_limit_message (js ''FILE_TOO_LARGE'') 400)
             else if \<not> validateFileType file
               then Inl (FileUploadError
                      (js ''Invalid file type. Only JPEG, PNG, and WebP files are allowed.'')
                      (js ''INVALID_FILE_TYPE'') 400)
             else
               let filename = generateSafeFilename (env_name_now env) (env_name_rnd env)
                                (file_name file)
               in (case env_writeFile env of
                     Some t \<Rightarrow> Inl (Lib t)
                   | None \<Rightarrow>
                     (case env_stat env of
                        Inl t \<Rightarrow>
                          Inl (FileUploadError (js ''File failed to write to disk'')
                                 (js ''WRITE_ERROR'') 500)
                      | Inr st \<Rightarrow>
                          Inr \<lparr>status = 200,
                               body = success_body filename (stats_size st) (file_type file)\<rparr>))))"

text \<open>\<open>POST\<close> of \<open>unnamed/part_000\<close>. A request over the limit is answered at once,
  with a body that has no \<open>code\<close>; every later failure goes through the \<open>catch\<close>.\<close>

definition POST_p0 :: "upload_env \<Rightarrow> request \<Rightarrow> rateLimit \<Rightarrow> response \<times> rateLimit" where
  "POST_p0 env req rl =
     (let (allowed, rl') = checkRateLimit (env_now env) (client_ip req) rl in
      if \<not> allowed
        then (\<lparr>status = 429, body = failure_body (js ''Rate limit exceeded'') None None\<rparr>, rl')
      else (case upload_p0 env req of Inl e \<Rightarrow> catch_upload e | Inr r \<Rightarrow> r, rl'))"

text \<open>\<open>unnamed/part_001\<close>: the rate limit is thrown as a \<open>FileUploadError\<close> too, a
  failing \<open>stat\<close> is not caught on the way, and the success body has a \<open>data\<close>
  object.\<close>

definition upload_p1 :: "upload_env \<Rightarrow> request \<Rightarrow> exn + response" where
  "upload_p1 env req =
     (case env_mkdir env of
        Some t \<Rightarrow> Inl (Lib t)
      | None \<Rightarrow>
        (case req_form req of
           Inl t \<Rightarrow> Inl (Lib t)
         | Inr None \<Rightarrow>
             Inl (FileUploadError (js ''No file provided'') (js ''INVALID_FILE'') 400)
         | Inr (Some (FormString s)) \<Rightarrow>
             Inl (FileUploadError (js ''No file provided'') (js ''INVALID_FILE'') 400)
         | Inr (Some (FormFile file)) \<Rightarrow>
             if file_size file > MAX_FILE_SIZE
               then Inl (FileUploadError size_limit_message_p1 (js ''FILE_TOO_LARGE'') 400)
             else if \<not> validateFileType file
               then Inl (FileUploadError
                      (js ''Invalid file type. Only JPEG, PNG, and WebP allowed.'')
                      (js ''INVALID_FILE_TYPE'') 400)
             else
               let filename = generateSafeFilename (env_name_now env) (env_name_rnd env)
                                (file_name file)
               in (case env_writeFile env of
                     Some t \<Rightarrow> Inl (Lib t)
                   | None \<Rightarrow>
                     (case env_stat env of
                        Inl t \<Rightarrow> Inl (Lib t)
                      | Inr st \<Rightarrow>
                          Inr \<lparr>status = 200, body = success_body_data filename st\<rparr>))))"

definition POST_p1 :: "upload_env \<Rightarrow> request \<Rightarrow> rateLimit \<Rightarrow> response \<times> rateLimit" where
  "POST_p1 env req rl =
     (let (allowed, rl') = checkRateLimit (env_now env) (client_ip req) rl in
      (case (if \<not> allowed
               then Inl (FileUploadError (js ''Rate limit exceeded'')
                           (js ''RATE_LIMIT_EXCEEDED'') 429)
             else upload_p1 env req) of
         Inl e \<Rightarrow> catch_upload e
       | Inr r \<Rightarrow> r, rl'))"

text \<open>
  \<open>POST\<close> of \<open>app/api/upload/route.ts\<close>: no rate limiter and no error class. The
  three checks answer at once with status 400 and a message; whatever is thrown is
  answered by the \<open>catch\<close> with status 500, the message going into \<open>details\<close>.
\<close>

definition POST_route :: "upload_env \<Rightarrow> request \<Rightarrow> response" where
  "POST_route env req =
     (let caught = (\<lambda>t. \<lparr>status = 500,
                           body = failure_body (js ''Upload failed'')
                                    (Some (case t of JsError msg \<Rightarrow> msg
                                                   | NonError \<Rightarrow> js ''Unknown error''))
                                    None\<rparr>)
      in case env_mkdir env of
        Some t \<Rightarrow> caught t
      | None \<Rightarrow>
        (case req_form req of
           Inl t \<Rightarrow> caught t
         | Inr None \<Rightarrow>
             \<lparr>status = 400,
              body = failure_body (js ''No file provided or invalid file format'') None None\<rparr>
         | Inr (Some (FormString s)) \<Rightarrow>
             \<lparr>status = 400,
              body = failure_body (js ''No file provided or invalid file format'') None None\<rparr>
         | Inr (Some (FormFile file)) \<Rightarrow>
             if file_size file > MAX_FILE_SIZE
               then \<lparr>status = 400, body = failure_body size_limit_message None None\<rparr>
             else if \<not> validateFileType_route file
               then \<lparr>status = 400,
                     body = failure_body
                       (js ''Invalid file type. Only JPEG, PNG, and WebP files are allowed.'')
                       None None\<rparr>
             else
               let filename = generateSafeFilename_route (env_name_now env) (env_name_rnd env)
                                (file_name file)
               in (case env_writeFile env of
                     Some t \<Rightarrow> caught t
                   | None \<Rightarrow>
                     (case env_stat env of
                        Inl t \<Rightarrow> caught (JsError (js ''File failed to write to disk''))
                      | Inr st \<Rightarrow>
                          \<lparr>status = 200,
                           body = success_body filename (stats_size st) (file_type file)\<rparr>))))"










section \<open>Retention sweeper\<close>

text \<open>
  An entry of the upload directory, with what the file system answers for it: the
  outcome of \<open>stat\<close> (the modification time, or \<open>None\<close> when \<open>stat\<close> throws) and
  whether \<open>unlink\<close> succeeds. Times are whole milliseconds. A sweep takes the
  listing that \<open>readdir\<close> returned (when \<open>readdir\<close> throws, nothing is deleted and
  the error is logged) and returns the entries that are left and the lines it logged.
\<close>

record dirent =
  d_name :: jstring
  d_mtimeMs :: "int option"
  d_unlink_ok :: bool

definition MAX_AGE :: int where
  "MAX_AGE = 24 * 60 * 60 * 1000"

datatype log_line = Cleaned jstring | Failed_to_delete jstring | Cleanup_error

text \<open>
  \<open>cleanupOldFiles\<close> of \<open>unnamed/part_000\<close>: a \<open>for\<close> loop inside one \<open>try\<close>. The
  loop returns whether it ran to the end and the entries left; a throwing \<open>stat\<close> or
  \<open>unlink\<close> leaves the loop, and the \<open>catch\<close> logs it.
\<close>

fun cleanupOldFiles_loop :: "int \<Rightarrow> dirent list \<Rightarrow> bool \<times> dirent list" where
  "cleanupOldFiles_loop now [] = (True, [])"
| "cleanupOldFiles_loop now (f # files) =
     (case d_mtimeMs f of
        None \<Rightarrow> (False, f # files)
      | Some mtimeMs \<Rightarrow>
          if now - mtimeMs > MAX_AGE
            then (if d_unlink_ok f then cleanupOldFiles_loop now files
                  else (False, f # files))
          else (let (done, left) = cleanupOldFiles_loop now files in (done, f # left)))"

definition cleanupOldFiles :: "int \<Rightarrow> dirent list \<Rightarrow> dirent list \<times> log_line list" where
  "cleanupOldFiles now files =
     (let (done, left) = cleanupOldFiles_loop now files
      in (left, if done then [] else [Cleanup_error]))"

text \<open>
  \<open>cleanupUploads\<close> of \<open>src/utils/cleanup.ts\<close>: one asynchronous callback per entry,
  all started by \<open>files.map\<close>, with a \<open>try\<close> of its own around \<open>unlink\<close>. Each
  callback touches its own file only, so the state after all of them have settled is
  given entry by entry. \<open>sweep_entry\<close> is the outcome of one callback. A throwing
  \<open>stat\<close> rejects the \<open>Promise.all\<close>, which the outer \<open>catch\<close> logs once; the
  other callbacks are not stopped by it. The callbacks run concurrently, so the code
  does not fix the order of the log lines; they are given here in the order of the
  listing, with the line of the outer \<open>catch\<close> last.
\<close>

datatype outcome = Kept | Deleted | Delete_failed | Rejected

definition sweep_entry :: "int \<Rightarrow> dirent \<Rightarrow> outcome" where
  "sweep_entry now f =
     (case d_mtimeMs f of
        None \<Rightarrow> Rejected
      | Some mtimeMs \<Rightarrow>
          let age = now - mtimeMs in
          if age > MAX_AGE
            then (if d_unlink_ok f then Deleted else Delete_failed)
          else Kept)"

definition entry_log :: "int \<Rightarrow> dirent \<Rightarrow> log_line list" where
  "entry_log now f =
     (case sweep_entry now f of
        Deleted \<Rightarrow> [Cleaned (d_name f)]
      | Delete_failed \<Rightarrow> [Failed_to_delete (d_name f)]
      | Kept \<Rightarrow> []
      | Rejected \<Rightarrow> [])"

definition cleanupUploads :: "int \<Rightarrow> dirent list \<Rightarrow> dirent list \<times> log_line list" where
  "cleanupUploads now files =
     (filter (\<lambda>f. sweep_entry now f \<noteq> Deleted) files,
      concat (map (entry_log now) files)
        @ (if list_ex (\<lambda>f. sweep_entry now f = Rejected) files then [Cleanup_error] else []))"

text \<open>An entry is due when its age is more than \<open>MAX_AGE\<close>.\<close>

definition due :: "int \<Rightarrow> dirent \<Rightarrow> bool" where
  "due now f = (case d_mtimeMs f of None \<Rightarrow> False | Some mtimeMs \<Rightarrow> now - mtimeMs > MAX_AGE)"

section \<open>Processing handler\<close>

text \<open>
  \<open>POST\<close> of \<open>app/api/process/route.ts\<close>. The parsed \<open>config\<close> field of the form
  is an object with an \<open>outputFormat\<close> string; \<open>None\<close> stands for a \<open>JSON.parse\<close>
  that throws. Width and height are given as the template literal prints them. Each file of the batch comes with what the outside
  answers while it is processed: the clock and random readings and the outcomes of
  \<open>writeFile\<close>, of the conversion command and of \<open>unlink\<close>. \<open>path.join\<close> is a
  parameter.
\<close>

record config =
  cfg_resize :: bool
  cfg_dimensions :: "(jstring \<times> jstring) option"
  cfg_colorCorrection :: bool
  cfg_outputFormat :: jstring

record file_io =
  io_now :: int
  io_rnd :: "nat list"
  io_writeFile_ok :: bool
  io_execAsync_ok :: "jstring \<Rightarrow> bool"
  io_unlink_ok :: bool

record processed =
  p_original :: jstring
  p_processed :: jstring
  p_url :: jstring

datatype process_body = Processed "processed list" | Process_error jstring

record process_response =
  p_status :: nat
  p_body :: process_body

text \<open>\<^verbatim>\<open>Date.now() + '-' + Math.random().toString(36).substring(2)\<close>\<close>

definition uniquePrefix :: "file_io \<Rightarrow> jstring" where
  "uniquePrefix io = number_toString (io_now io) @ [DASH] @ random_toString36 (io_rnd io)"

definition outputFilename :: "file_io \<Rightarrow> File \<Rightarrow> jstring" where
  "outputFilename io f = js ''processed-'' @ uniquePrefix io @ [DASH] @ file_name f"

text \<open>The command line built for one file.\<close>

definition convert_command ::
  "(jstring \<Rightarrow> jstring \<Rightarrow> jstring) \<Rightarrow> jstring \<Rightarrow> jstring \<Rightarrow> config \<Rightarrow> file_io \<Rightarrow> File \<Rightarrow> jstring" where
  "convert_command path_join uploadDir processedDir cfg io f =
     (let uploadPath = path_join uploadDir (uniquePrefix io @ [DASH] @ file_name f);
          outputPath = path_join processedDir (outputFilename io f);
          command = js ''convert \"'' @ uploadPath @ js ''\"'';
          command = (case cfg_dimensions cfg of
                       Some (width, height) \<Rightarrow>
                         if cfg_resize cfg
                           then command @ js '' -resize '' @ width @ js ''x'' @ height @ js ''!''
                         else command
                     | None \<Rightarrow> command);
          command = (if cfg_colorCorrection cfg then command @ js '' -auto-level -normalize''
                     else command);
          outputFormat = toLowerCase (cfg_outputFormat cfg)
      in command @ js '' \"'' @ outputPath @ js ''.'' @ outputFormat @ js ''\"'')"

text \<open>The \<open>for\<close> loop: the descriptors collected so far are \<open>processedFiles\<close>; the
  first call that throws ends the loop with what was thrown.\<close>

fun process_loop ::
  "(jstring \<Rightarrow> jstring \<Rightarrow> jstring) \<Rightarrow> jstring \<Rightarrow> jstring \<Rightarrow> config \<Rightarrow> (File \<times> file_io) list
     \<Rightarrow> processed list \<Rightarrow> unit + processed list" where
  "process_loop path_join uploadDir processedDir cfg [] processedFiles = Inr processedFiles"
| "process_loop path_join uploadDir processedDir cfg ((f, io) # files) processedFiles =
     (if \<not> io_writeFile_ok io then Inl ()
      else if \<not> io_execAsync_ok io (convert_command path_join uploadDir processedDir cfg io f)
        then Inl ()
      else if \<not> io_unlink_ok io then Inl ()
      else process_loop path_join uploadDir processedDir cfg files
             (processedFiles @
               [\<lparr>p_original = file_name f,
                 p_processed = outputFilename io f @ js ''.'' @ toLowerCase (cfg_outputFormat cfg),
                 p_url = js ''/processed/'' @ outputFilename io f @ js ''.''
                           @ toLowerCase (cfg_outputFormat cfg)\<rparr>]))"

record process_env =
  pe_path_join :: "jstring \<Rightarrow> jstring \<Rightarrow> jstring"
  pe_formData_ok :: bool
  pe_mkdir :: "(jstring \<times> jstring) option"

definition process_failed :: process_response where
  "process_failed = \<lparr>p_status = 500, p_body = Process_error (js ''Failed to process images'')\<rparr>"

definition POST_process ::
  "process_env \<Rightarrow> config option \<Rightarrow> (File \<times> file_io) list \<Rightarrow> process_response" where
  "POST_process env parsed files =
     (if \<not> pe_formData_ok env then process_failed
      else case parsed of
        None \<Rightarrow> process_failed
      | Some cfg \<Rightarrow>
          if files = []
            then \<lparr>p_status = 400, p_body = Process_error (js ''No files provided'')\<rparr>
          else (case pe_mkdir env of
                  None \<Rightarrow> process_failed
                | Some (uploadDir, processedDir) \<Rightarrow>
                    (case process_loop (pe_path_join env) uploadDir processedDir cfg files [] of
                       Inl e \<Rightarrow> process_failed
                     | Inr processedFiles \<Rightarrow>
                         \<lparr>p_status = 200, p_body = Processed processedFiles\<rparr>)))"

text \<open>Whether the conversion command fails on a file of the batch.\<close>

definition tool_fails ::
  "process_env \<Rightarrow> jstring \<Rightarrow> jstring \<Rightarrow> config \<Rightarrow> File \<times> file_io \<Rightarrow> bool" where
  "tool_fails env uploadDir processedDir cfg entry =
     (\<not> io_execAsync_ok (snd entry)
          (convert_command (pe_path_join env) uploadDir processedDir cfg (snd entry) (fst entry)))"

section \<open>Properties of the rate limiter\<close>

lemma checkRateLimit_in_window:
  assumes "rl ip = Some e" and "now \<le> resetTime e" and "count e < MAX_REQUESTS"
  shows "checkRateLimit now ip rl = (True, rl(ip \<mapsto> e\<lparr>count := count e + 1\<rparr>))"
  using assms by (simp add: checkRateLimit_def)

lemma checkRateLimit_calls_in_window:
  assumes "rl ip = Some e"
    and "\<forall>t\<in>set ts. t \<le> resetTime e"
    and "count e + length ts \<le> MAX_REQUESTS"
  shows "checkRateLimit_calls ts ip rl =
           (replicate (length ts) True, rl(ip \<mapsto> e\<lparr>count := count e + length ts\<rparr>))"
  using assms
proof (induction ts arbitrary: rl e)
  case Nil
  then show ?case by (simp add: map_upd_triv)
next
  case (Cons t ts)
  let ?e' = "e\<lparr>count := count e + 1\<rparr>"
  let ?rl' = "rl(ip \<mapsto> ?e')"
  have step: "checkRateLimit t ip rl = (True, ?rl')"
    using Cons.prems by (intro checkRateLimit_in_window) auto
  have "checkRateLimit_calls ts ip ?rl' =
          (replicate (length ts) True, ?rl'(ip \<mapsto> ?e'\<lparr>count := count ?e' + length ts\<rparr>))"
    using Cons.prems by (intro Cons.IH) auto
  with step show ?case by (simp add: fun_eq_iff)
qed

lemma checkRateLimit_first:
  assumes "rl ip = None"
  shows "checkRateLimit now ip rl =
           (True, rl(ip \<mapsto> \<lparr>count = 1, resetTime = now + WINDOW_MS\<rparr>))"
  using assms by (simp add: checkRateLimit_def WINDOW_MS_def MAX_REQUESTS_def)

lemma checkRateLimit_full:
  assumes "rl ip = Some e" and "now \<le> resetTime e" and "count e \<ge> MAX_REQUESTS"
  shows "checkRateLimit now ip rl = (False, rl)"
  using assms by (simp add: checkRateLimit_def)

lemma checkRateLimit_elapsed:
  assumes "rl ip = Some e" and "now > resetTime e"
  shows "checkRateLimit now ip rl =
           (True, rl(ip \<mapsto> \<lparr>count = 1, resetTime = now + WINDOW_MS\<rparr>))"
  using assms by (cases e) (simp add: checkRateLimit_def)

text \<open>
  C3. For a key \<open>ip\<close> that has no entry in the map, or whose window has elapsed, the
  first call (at \<open>t0\<close>) opens a window that ends at \<open>t0 + WINDOW_MS\<close>. That call and
  the 99 calls after it inside the window all return true (100 in total), the 101st
  call inside the window returns false, and the next call after the window end returns
  true, storing count 1 and a new window end.
\<close>

theorem rate_limit_window:
  assumes "rl ip = None \<or> (\<exists>e. rl ip = Some e \<and> resetTime e < t0)"
    and "length ts = 99"
    and "\<forall>t\<in>set ts. t \<le> t0 + WINDOW_MS"
    and "t101 \<le> t0 + WINDOW_MS"
    and "t0 + WINDOW_MS < t'"
  shows "\<exists>rl100 rl101 rl102.
           checkRateLimit_calls (t0 # ts) ip rl = (replicate 100 True, rl100)
         \<and> checkRateLimit t101 ip rl100 = (False, rl101)
         \<and> checkRateLimit t' ip rl101 = (True, rl102)
         \<and> rl102 ip = Some \<lparr>count = 1, resetTime = t' + WINDOW_MS\<rparr>"
proof -
  let ?e1 = "\<lparr>count = 1, resetTime = t0 + WINDOW_MS\<rparr>"
  let ?rl1 = "rl(ip \<mapsto> ?e1)"
  let ?e100 = "?e1\<lparr>count := count ?e1 + length ts\<rparr>"
  let ?rl100 = "?rl1(ip \<mapsto> ?e100)"
  have first: "checkRateLimit t0 ip rl = (True, ?rl1)"
    using assms(1) checkRateLimit_first [of rl ip t0] checkRateLimit_elapsed [of rl ip _ t0]
    by blast
  have rest: "checkRateLimit_calls ts ip ?rl1 = (replicate (length ts) True, ?rl100)"
    using assms(2,3) by (intro checkRateLimit_calls_in_window) (auto simp: MAX_REQUESTS_def)
  have run: "checkRateLimit_calls (t0 # ts) ip rl = (replicate 100 True, ?rl100)"
    using first rest assms(2) by (simp add: numeral_eq_Suc)
  have deny: "checkRateLimit t101 ip ?rl100 = (False, ?rl100)"
    using assms(2,4) by (intro checkRateLimit_full [where e = ?e100]) (auto simp: MAX_REQUESTS_def)
  have again: "checkRateLimit t' ip ?rl100 =
                 (True, ?rl100(ip \<mapsto> \<lparr>count = 1, resetTime = t' + WINDOW_MS\<rparr>))"
    using assms(5) by (intro checkRateLimit_elapsed [where e = ?e100]) auto
  from run deny again show ?thesis by simp
qed

theorem rate_limit_window_witness:
  "\<exists>rl100 rl101 rl102.
     checkRateLimit_calls (1000 # replicate 99 2000) (js ''10.0.0.1'') Map.empty
       = (replicate 100 True, rl100)
   \<and> checkRateLimit 900000 (js ''10.0.0.1'') rl100 = (False, rl101)
   \<and> checkRateLimit 901001 (js ''10.0.0.1'') rl101 = (True, rl102)
   \<and> rl102 (js ''10.0.0.1'') = Some \<lparr>count = 1, resetTime = 901001 + WINDOW_MS\<rparr>"
  using rate_limit_window [of Map.empty "js ''10.0.0.1''" 1000 "replicate 99 2000" 900000 901001]
  by (simp add: WINDOW_MS_def)

text \<open>
  C10. A call that is denied leaves the map as it was: the branch that returns false
  is taken only for a stored entry whose window has not elapsed and whose count has
  reached the maximum, and it returns before the entry is changed or stored.
\<close>

theorem rate_limit_denied_unchanged:
  assumes "fst (checkRateLimit now ip rl) = False"
  shows "snd (checkRateLimit now ip rl) = rl
       \<and> (\<exists>e. rl ip = Some e \<and> now \<le> resetTime e \<and> MAX_REQUESTS \<le> count e)"
  using assms
  by (auto simp: checkRateLimit_def Let_def MAX_REQUESTS_def split: option.splits if_splits)

theorem rate_limit_denied_unchanged_witness:
  "fst (checkRateLimit 5 (js ''k'') [js ''k'' \<mapsto> \<lparr>count = 100, resetTime = 9\<rparr>]) = False
 \<and> snd (checkRateLimit 5 (js ''k'') [js ''k'' \<mapsto> \<lparr>count = 100, resetTime = 9\<rparr>])
     = [js ''k'' \<mapsto> \<lparr>count = 100, resetTime = 9\<rparr>]"
proof -
  have h: "fst (checkRateLimit 5 (js ''k'') [js ''k'' \<mapsto> \<lparr>count = 100, resetTime = 9\<rparr>]) = False"
    by (simp add: checkRateLimit_def MAX_REQUESTS_def)
  show ?thesis using h rate_limit_denied_unchanged [OF h] by simp
qed

section \<open>Properties of the filename sanitizer\<close>

lemma decimal_digit: "n < 10 \<Longrightarrow> decimal n = [48 + n]"
  by (simp add: decimal.simps)

lemma decimal_more: "10 \<le> n \<Longrightarrow> decimal n = decimal (n div 10) @ [48 + n mod 10]"
  by (subst decimal.simps) simp

lemma token_char_safe: "token_char c \<Longrightarrow> safe_char c"
  by (auto simp: token_char_def safe_char_def is_alnum_def)

lemma token_char_plain: "token_char c \<Longrightarrow> c \<noteq> DOT \<and> c \<noteq> SLASH"
  by (auto simp: token_char_def)

lemma decimal_token: "c \<in> set (decimal n) \<Longrightarrow> token_char c"
proof (induction n rule: decimal.induct)
  case (1 n)
  show ?case
  proof (cases "n < 10")
    case True
    with "1.prems" show ?thesis by (auto simp: decimal_digit token_char_def)
  next
    case False
    then have "decimal n = decimal (n div 10) @ [48 + n mod 10]"
      by (simp add: decimal_more)
    with "1.prems" have "c \<in> set (decimal (n div 10)) \<or> c = 48 + n mod 10" by auto
    then show ?thesis
    proof
      assume "c \<in> set (decimal (n div 10))"
      with False "1.IH" show ?thesis by simp
    next
      have "n mod 10 < 10" by simp
      moreover assume "c = 48 + n mod 10"
      ultimately show ?thesis unfolding token_char_def by linarith
    qed
  qed
qed

lemma decimal_nonempty: "decimal n \<noteq> []"
  by (subst decimal.simps) simp

lemma uniqueId_token: "c \<in> set (uniqueId now rnd) \<Longrightarrow> token_char c"
proof -
  assume c: "c \<in> set (uniqueId now rnd)"
  have d36: "token_char (digit36 (d mod 36))" for d
  proof -
    have "d mod 36 < 36" by simp
    then show ?thesis unfolding digit36_def token_char_def by (simp split: if_splits) linarith
  qed
  from c consider "c \<in> set (number_toString now)" | "c = DASH" | "c \<in> set (random_toString36 rnd)"
    by (auto simp: uniqueId_def)
  then show ?thesis
  proof cases
    case 1
    then show ?thesis
      by (auto simp: number_toString_def decimal_token split: if_splits) (simp add: token_char_def)
  next
    case 2
    then show ?thesis by (simp add: token_char_def)
  next
    case 3
    then show ?thesis using d36 by (auto simp: random_toString36_def)
  qed
qed

lemma lower_unit_replaced_token:
  "c \<in> set (lower_unit (if is_alnum x then x else DASH)) \<Longrightarrow> token_char c"
proof (cases "is_alnum x")
  case False
  moreover assume "c \<in> set (lower_unit (if is_alnum x then x else DASH))"
  ultimately show ?thesis by (simp add: lower_unit_def token_char_def)
next
  case True
  assume "c \<in> set (lower_unit (if is_alnum x then x else DASH))"
  with True have c: "c \<in> set (lower_unit x)" by simp
  show ?thesis
  proof (cases "65 \<le> x \<and> x \<le> 90")
    case True
    with c have "c = x + 32" by (simp add: lower_unit_def)
    with True show ?thesis unfolding token_char_def by linarith
  next
    case False
    with True have x: "(97 \<le> x \<and> x \<le> 122) \<or> (48 \<le> x \<and> x \<le> 57)"
      unfolding is_alnum_def by blast
    then have "x \<noteq> 0x212A" and "x \<noteq> 0x130" by linarith+
    with c False have "c = x" by (simp add: lower_unit_def)
    with x show ?thesis unfolding token_char_def by blast
  qed
qed

lemma baseFilename_token: "c \<in> set (baseFilename name) \<Longrightarrow> token_char c"
proof -
  assume "c \<in> set (baseFilename name)"
  then obtain x where "c \<in> set (lower_unit (if is_alnum x then x else DASH))"
    by (auto simp: baseFilename_def toLowerCase_def replace_non_alnum_def)
  then show ?thesis by (rule lower_unit_replaced_token)
qed

lemma last_component_noslash: "SLASH \<notin> set (last_component p)"
  by (auto simp: last_component_def dest: set_takeWhileD)

lemma last_component_subset: "set (last_component p) \<subseteq> set p"
  by (auto simp: last_component_def dest!: set_takeWhileD set_dropWhileD)

lemma extname_shape:
  "extname p = [] \<or> (\<exists>t. extname p = DOT # t \<and> DOT \<notin> set t \<and> SLASH \<notin> set t)"
proof (cases "extname p = []")
  case True
  then show ?thesis by simp
next
  case False
  let ?comp = "last_component p"
  let ?t = "rev (takeWhile (\<lambda>c. c \<noteq> DOT) (rev ?comp))"
  from False have e: "extname p = DOT # ?t"
    by (auto simp: extname_def Let_def split: if_splits)
  have "DOT \<notin> set ?t" by (auto dest: set_takeWhileD)
  moreover have "set ?t \<subseteq> set ?comp" by (auto dest: set_takeWhileD)
  then have "SLASH \<notin> set ?t" using last_component_noslash [of p] by blast
  ultimately show ?thesis using e by blast
qed

lemma has_dotdot_nodot: "DOT \<notin> set xs \<Longrightarrow> has_dotdot (xs @ ys) = has_dotdot ys"
proof (induction xs)
  case Nil
  then show ?case by simp
next
  case (Cons x xs)
  then have "has_dotdot (xs @ ys) = has_dotdot ys" and "x \<noteq> DOT" by auto
  then show ?case by (cases "xs @ ys") auto
qed

lemma has_dotdot_extname: "\<not> has_dotdot (extname p)"
proof -
  from extname_shape [of p] show ?thesis
  proof
    assume "extname p = []"
    then show ?thesis by simp
  next
    assume "\<exists>t. extname p = DOT # t \<and> DOT \<notin> set t \<and> SLASH \<notin> set t"
    then obtain t where t: "extname p = DOT # t" "DOT \<notin> set t" by blast
    have "\<not> has_dotdot t" using has_dotdot_nodot [OF t(2), of "[]"] by simp
    with t show ?thesis by (cases t) auto
  qed
qed

lemma extname_noslash: "SLASH \<notin> set (extname p)"
  using extname_shape [of p] by auto

lemma lower_unit_allowed:
  assumes "\<forall>d\<in>set (lower_unit c). d \<in> {46, 98, 101, 103, 106, 110, 112, 119}"
  shows "safe_char c"
proof (cases "65 \<le> c \<and> c \<le> 90")
  case True
  then show ?thesis by (simp add: safe_char_def is_alnum_def)
next
  case False
  show ?thesis
  proof (cases "c = 0x212A \<or> c = 0x130")
    case True
    with assms show ?thesis by (auto simp: lower_unit_def)
  next
    case False
    with \<open>\<not> (65 \<le> c \<and> c \<le> 90)\<close> have "lower_unit c = [c]" by (simp add: lower_unit_def)
    with assms have "c \<in> {46, 98, 101, 103, 106, 110, 112, 119}" by simp
    then show ?thesis by (auto simp: safe_char_def is_alnum_def)
  qed
qed

lemma allowed_extension_units:
  "e \<in> ALLOWED_EXTENSIONS \<Longrightarrow> set e \<subseteq> {46, 98, 101, 103, 106, 110, 112, 119}"
  by (auto simp: ALLOWED_EXTENSIONS_def js_def)

lemma allowed_extension_safe:
  assumes "toLowerCase e \<in> ALLOWED_EXTENSIONS"
  shows "list_all safe_char e"
proof -
  have sub: "set (toLowerCase e) \<subseteq> {46, 98, 101, 103, 106, 110, 112, 119}"
    using assms by (rule allowed_extension_units)
  have "safe_char c" if "c \<in> set e" for c
  proof (rule lower_unit_allowed)
    show "\<forall>d\<in>set (lower_unit c). d \<in> {46, 98, 101, 103, 106, 110, 112, 119}"
      using sub that by (auto simp: toLowerCase_def)
  qed
  then show ?thesis by (simp add: list_all_iff)
qed

lemma generateSafeFilename_safe:
  assumes "list_all safe_char (extname name)"
  shows "list_all safe_char (generateSafeFilename now rnd name)"
  using assms
  by (auto simp: generateSafeFilename_def list_all_iff
           dest: baseFilename_token uniqueId_token token_char_safe
           intro: token_char_safe [of DASH, unfolded token_char_def, simplified])

lemma generateSafeFilename_route_safe:
  assumes "list_all safe_char (extname name)"
  shows "list_all safe_char (generateSafeFilename_route now rnd name)"
  using assms
  by (auto simp: generateSafeFilename_route_def list_all_iff
           dest: baseFilename_token uniqueId_token token_char_safe
           intro: token_char_safe [of DASH, unfolded token_char_def, simplified])

text \<open>The part of a generated name in front of the extension.\<close>

lemma stem_plain:
  assumes "\<forall>c\<in>set s. token_char c"
  shows "DOT \<notin> set s" and "SLASH \<notin> set s"
  using assms token_char_plain by blast+

lemma stem_unchanged:
  assumes "\<forall>c\<in>set s. token_char c"
  shows "toLowerCase (replace_non_alnum s) = s"
  using assms
proof (induction s)
  case Nil
  then show ?case by (simp add: toLowerCase_def replace_non_alnum_def)
next
  case (Cons c s)
  then have c: "token_char c" and IH: "toLowerCase (replace_non_alnum s) = s" by auto
  have "lower_unit (if is_alnum c then c else DASH) = [c]"
  proof (cases "c = DASH")
    case True
    then show ?thesis by (simp add: lower_unit_def is_alnum_def)
  next
    case False
    with c have r: "(97 \<le> c \<and> c \<le> 122) \<or> (48 \<le> c \<and> c \<le> 57)"
      by (simp add: token_char_def)
    then have "is_alnum c" by (auto simp: is_alnum_def)
    moreover from r have "\<not> (65 \<le> c \<and> c \<le> 90)" "c \<noteq> 0x212A" "c \<noteq> 0x130"
      by linarith+
    ultimately show ?thesis by (simp add: lower_unit_def)
  qed
  with IH show ?case by (simp add: toLowerCase_def replace_non_alnum_def)
qed

lemma last_component_id: "SLASH \<notin> set p \<Longrightarrow> last_component p = p"
proof -
  assume a: "SLASH \<notin> set p"
  then have "SLASH \<notin> set (rev p)" by simp
  then have "dropWhile (\<lambda>c. c = SLASH) (rev p) = rev p"
    by (cases "rev p") auto
  moreover from a have "takeWhile (\<lambda>c. c \<noteq> SLASH) (rev p) = rev p"
    by (auto simp: takeWhile_eq_all_conv)
  ultimately show ?thesis by (simp only: last_component_def rev_rev_ident)
qed

lemma extname_stem_ext:
  assumes "s \<noteq> []" and "DOT \<notin> set s" and "SLASH \<notin> set s"
    and "DOT \<notin> set t" and "SLASH \<notin> set t"
  shows "extname (s @ DOT # t) = DOT # t"
proof -
  let ?p = "s @ DOT # t"
  have comp: "last_component ?p = ?p"
    using assms by (intro last_component_id) auto
  have tw: "takeWhile (\<lambda>c. c \<noteq> DOT) (rev ?p) = rev t"
    using assms(4) by (auto simp: takeWhile_tail takeWhile_eq_all_conv)
  have dr: "drop (Suc (length (rev t))) (rev ?p) = rev s"
    by simp
  have ne: "?p \<noteq> [DOT, DOT]"
    using assms(1,2) by (cases s) auto
  show ?thesis
    using assms(1) ne
    by (simp only: extname_def comp Let_def tw dr) simp
qed

lemma extname_no_dot: "DOT \<notin> set p \<Longrightarrow> extname p = []"
  using last_component_subset [of p] by (auto simp: extname_def Let_def)

lemma basename_stem_ext:
  assumes "s \<noteq> []" and "SLASH \<notin> set s" and "SLASH \<notin> set e"
  shows "basename (s @ e) e = s"
proof -
  have comp: "last_component (s @ e) = s @ e"
    using assms by (intro last_component_id) auto
  show ?thesis
    using assms(1) by (simp add: basename_def comp Let_def)
qed

lemma resanitize:
  assumes tok: "\<forall>c\<in>set s. token_char c" and ne: "s \<noteq> []"
  shows "extname (s @ extname name) = extname name"
    and "baseFilename (s @ extname name) = s"
proof -
  note plain = stem_plain [OF tok]
  show e: "extname (s @ extname name) = extname name"
  proof -
    from extname_shape [of name] show ?thesis
    proof
      assume "extname name = []"
      then show ?thesis using plain by (simp add: extname_no_dot)
    next
      assume "\<exists>t. extname name = DOT # t \<and> DOT \<notin> set t \<and> SLASH \<notin> set t"
      then obtain t where "extname name = DOT # t" "DOT \<notin> set t" "SLASH \<notin> set t"
        by blast
      then show ?thesis using plain ne by (simp add: extname_stem_ext)
    qed
  qed
  have "basename (s @ extname name) (extname name) = s"
    using ne plain(2) extname_noslash by (rule basename_stem_ext)
  then show "baseFilename (s @ extname name) = s"
    by (simp add: baseFilename_def e stem_unchanged [OF tok])
qed

lemma generated_name_plain:
  "SLASH \<notin> set (generateSafeFilename now rnd name)"
  "\<not> has_dotdot (generateSafeFilename now rnd name)"
  "SLASH \<notin> set (generateSafeFilename_route now rnd name)"
  "\<not> has_dotdot (generateSafeFilename_route now rnd name)"
proof -
  have dash: "token_char DASH" by (simp add: token_char_def)
  let ?s = "baseFilename name @ [DASH] @ uniqueId now rnd"
  let ?r = "uniqueId now rnd @ [DASH] @ baseFilename name"
  have s: "\<forall>c\<in>set ?s. token_char c" and r: "\<forall>c\<in>set ?r. token_char c"
    using baseFilename_token uniqueId_token dash by auto
  have out: "generateSafeFilename now rnd name = ?s @ extname name"
    and out_r: "generateSafeFilename_route now rnd name = ?r @ extname name"
    by (simp_all add: generateSafeFilename_def generateSafeFilename_route_def)
  show "SLASH \<notin> set (generateSafeFilename now rnd name)"
    unfolding out using stem_plain(2) [OF s] extname_noslash [of name] by simp
  show "SLASH \<notin> set (generateSafeFilename_route now rnd name)"
    unfolding out_r using stem_plain(2) [OF r] extname_noslash [of name] by simp
  show "\<not> has_dotdot (generateSafeFilename now rnd name)"
    unfolding out using has_dotdot_nodot [OF stem_plain(1) [OF s]] has_dotdot_extname by simp
  show "\<not> has_dotdot (generateSafeFilename_route now rnd name)"
    unfolding out_r using has_dotdot_nodot [OF stem_plain(1) [OF r]] has_dotdot_extname by simp
qed

lemmas string_eval =
  js_def last_component_def extname_def basename_def component_with_slashes_def
  replace_non_alnum_def is_alnum_def lower_unit_def toLowerCase_def
  number_toString_def decimal_digit decimal_more
  digit36_def random_toString36_def uniqueId_def baseFilename_def
  generateSafeFilename_def generateSafeFilename_route_def safe_char_def

text \<open>
  C4, as stated, fails: the extension is copied from the input as it is, so a space in
  it (after the last dot of the name) is a space in the generated name.
\<close>

theorem sanitized_name_charset_counterexample:
  "generateSafeFilename 1700000000000 [7, 20] (js ''holiday.p g'')
     = js ''holiday-1700000000000-7k.p g''
   \<and> \<not> list_all safe_char (generateSafeFilename 1700000000000 [7, 20] (js ''holiday.p g''))"
  by (simp add: string_eval)

text \<open>
  C4, amended. When the extension of the input consists of characters of the class
  (letters, digits, dot, dash, underscore), the generated name consists of such
  characters, in both variants of the sanitizer; so it does for every name that the
  validator lets through, whose lower-cased extension is one of the four allowed ones,
  and the handlers sanitize no other name. For every input whatever, the generated name
  has no \<open>/\<close> and no \<open>..\<close> in it.
\<close>

theorem sanitized_name_charset:
  "(list_all safe_char (extname name) \<or> toLowerCase (extname name) \<in> ALLOWED_EXTENSIONS \<longrightarrow>
      list_all safe_char (generateSafeFilename now rnd name)
    \<and> list_all safe_char (generateSafeFilename_route now rnd name))
   \<and> SLASH \<notin> set (generateSafeFilename now rnd name)
   \<and> \<not> has_dotdot (generateSafeFilename now rnd name)
   \<and> SLASH \<notin> set (generateSafeFilename_route now rnd name)
   \<and> \<not> has_dotdot (generateSafeFilename_route now rnd name)"
  using generateSafeFilename_safe generateSafeFilename_route_safe allowed_extension_safe
    generated_name_plain
  by blast

theorem sanitized_name_charset_witness:
  "list_all safe_char (extname (js ''../../etc/My Photo.PNG''))
   \<and> list_all safe_char (generateSafeFilename 1723 [3, 35, 10, 0] (js ''../../etc/My Photo.PNG''))
   \<and> list_all safe_char (generateSafeFilename_route 1723 [3, 35, 10, 0] (js ''../../etc/My Photo.PNG''))
   \<and> SLASH \<notin> set (generateSafeFilename 1723 [3, 35, 10, 0] (js ''../../etc/My Photo.PNG''))
   \<and> \<not> has_dotdot (generateSafeFilename 1723 [3, 35, 10, 0] (js ''../../etc/My Photo.PNG''))"
proof -
  have h: "list_all safe_char (extname (js ''../../etc/My Photo.PNG''))"
    by (simp add: js_def extname_def last_component_def safe_char_def is_alnum_def)
  show ?thesis
    using h sanitized_name_charset [of "js ''../../etc/My Photo.PNG''" 1723 "[3, 35, 10, 0]"]
    by blast
qed

text \<open>
  C9. Sanitizing a generated name again changes nothing but the fresh token: the part
  in front of the extension (sanitized base and first token) and the extension come
  back as they are, with the new token between them, or in front of them in the
  variant of \<open>route.ts\<close>.
\<close>

theorem sanitizer_idempotent:
  "generateSafeFilename now1 rnd1 name
     = (baseFilename name @ [DASH] @ uniqueId now1 rnd1) @ extname name
   \<and> generateSafeFilename now2 rnd2 (generateSafeFilename now1 rnd1 name)
     = (baseFilename name @ [DASH] @ uniqueId now1 rnd1)
         @ [DASH] @ uniqueId now2 rnd2 @ extname name
   \<and> generateSafeFilename_route now1 rnd1 name
     = (uniqueId now1 rnd1 @ [DASH] @ baseFilename name) @ extname name
   \<and> generateSafeFilename_route now2 rnd2 (generateSafeFilename_route now1 rnd1 name)
     = uniqueId now2 rnd2 @ [DASH]
         @ (uniqueId now1 rnd1 @ [DASH] @ baseFilename name) @ extname name"
proof -
  have dash: "token_char DASH" by (simp add: token_char_def)
  let ?s = "baseFilename name @ [DASH] @ uniqueId now1 rnd1"
  let ?r = "uniqueId now1 rnd1 @ [DASH] @ baseFilename name"
  have s: "\<forall>c\<in>set ?s. token_char c" and r: "\<forall>c\<in>set ?r. token_char c"
    using baseFilename_token uniqueId_token dash by auto
  have ne: "?s \<noteq> []" "?r \<noteq> []" by simp_all
  have out: "generateSafeFilename now1 rnd1 name = ?s @ extname name"
    and out_r: "generateSafeFilename_route now1 rnd1 name = ?r @ extname name"
    by (simp_all add: generateSafeFilename_def generateSafeFilename_route_def)
  have twice: "generateSafeFilename now2 rnd2 (?s @ extname name)
                 = ?s @ [DASH] @ uniqueId now2 rnd2 @ extname name"
    by (subst generateSafeFilename_def) (simp only: resanitize [OF s ne(1)])
  have twice_r: "generateSafeFilename_route now2 rnd2 (?r @ extname name)
                 = uniqueId now2 rnd2 @ [DASH] @ ?r @ extname name"
    by (subst generateSafeFilename_route_def) (simp only: resanitize [OF r ne(2)])
  show ?thesis
    using out out_r twice twice_r by (simp only: simp_thms)
qed

theorem sanitizer_idempotent_witness:
  "generateSafeFilename 1723 [3, 35, 10, 0] (js ''../../etc/My Photo.PNG'')
     = js ''my-photo-1723-3za0.PNG''
   \<and> generateSafeFilename 1800 [1]
        (generateSafeFilename 1723 [3, 35, 10, 0] (js ''../../etc/My Photo.PNG''))
     = js ''my-photo-1723-3za0-1800-1.PNG''
   \<and> generateSafeFilename_route 1800 [1]
        (generateSafeFilename_route 1723 [3, 35, 10, 0] (js ''../../etc/My Photo.PNG''))
     = js ''1800-1-1723-3za0-my-photo.PNG''"
proof -
  have b: "baseFilename (js ''../../etc/My Photo.PNG'') = js ''my-photo''"
    and e: "extname (js ''../../etc/My Photo.PNG'') = js ''.PNG''"
    and u: "uniqueId 1723 [3, 35, 10, 0] = js ''1723-3za0''" "uniqueId 1800 [1] = js ''1800-1''"
    by (simp_all add: string_eval)
  show ?thesis
    using sanitizer_idempotent
            [of 1723 "[3, 35, 10, 0]" "js ''../../etc/My Photo.PNG''" 1800 "[1]"]
    unfolding b e u by (elim conjE) (simp add: js_def)
qed

section \<open>Properties of the upload handler\<close>

lemma every_matches_same_length:
  "length bs = length signature \<Longrightarrow> every_matches bs signature = (bs = signature)"
  by (induction bs signature rule: every_matches.induct) auto

lemma validateFileType_allowed:
  assumes "file_type f \<in> ALLOWED_TYPES"
    and "toLowerCase (extname (file_name f)) \<in> ALLOWED_EXTENSIONS"
  shows "validateFileType f =
           (every_matches (take 3 (take 4 (file_bytes f))) signature_jpeg
          \<or> every_matches (take 4 (file_bytes f)) signature_png
          \<or> every_matches (take 4 (take 4 (file_bytes f))) signature_webp)"
  using assms by (simp add: validateFileType_def Let_def)

lemmas validator_eval =
  validateFileType_def ALLOWED_TYPES_def ALLOWED_EXTENSIONS_def
  signature_jpeg_def signature_png_def signature_webp_def
  js_def last_component_def extname_def lower_unit_def toLowerCase_def

lemmas handler_eval =
  POST_p0_def upload_p0_def POST_p1_def upload_p1_def POST_route_def catch_upload_def
  checkRateLimit_def client_ip_def WINDOW_MS_def MAX_REQUESTS_def
  file_size_def MAX_FILE_SIZE_def failure_body_def success_body_def success_body_data_def
  validateFileType_route_def Let_def






lemma POST_p0_allowed:
  "fst (checkRateLimit (env_now env) (client_ip req) rl) \<Longrightarrow>
   fst (POST_p0 env req rl) = (case upload_p0 env req of Inl e \<Rightarrow> catch_upload e | Inr r \<Rightarrow> r)"
  by (cases "checkRateLimit (env_now env) (client_ip req) rl") (simp add: POST_p0_def)















lemma size_limit_message_eval:
  "size_limit_message = js ''File size exceeds maximum limit of 10MB''"
  by (simp add: size_limit_message_def MAX_FILE_SIZE_def number_toString_def
        decimal_digit decimal_more js_def)

text \<open>
  C1, as stated, fails: a 2048-byte buffer that starts with the PNG signature, declared
  as \<open>image/jpeg\<close> under the name \<open>photo.jpg\<close>, passes the validator, although its
  first bytes are not the JPEG signature, and the handler stores it (status 200).
\<close>

theorem validate_signature_counterexample:
  "validateFileType
     \<lparr>file_name = js ''photo.jpg'', file_type = js ''image/jpeg'',
      file_bytes = [0x89, 0x50, 0x4E, 0x47] @ replicate 2044 0\<rparr>
   \<and> take 3 ([0x89, 0x50, 0x4E, 0x47] @ replicate 2044 (0::byte)) \<noteq> signature_jpeg
   \<and> status (fst (POST_p0
       \<lparr>env_now = 1000, env_mkdir = None, env_name_now = 1000, env_name_rnd = [1, 2],
        env_writeFile = None, env_stat = Inr \<lparr>stats_size = 2048, stats_mtime = 1000\<rparr>\<rparr>
       \<lparr>req_forwarded_for = Some (js ''10.0.0.1''),
        req_form = Inr (Some (FormFile
          \<lparr>file_name = js ''photo.jpg'', file_type = js ''image/jpeg'',
           file_bytes = [0x89, 0x50, 0x4E, 0x47] @ replicate 2044 0\<rparr>))\<rparr>
       Map.empty)) = 200"
  by (simp add: handler_eval validator_eval)

text \<open>
  C1, amended. For a file of at least four bytes whose declared type and whose
  extension are in the allowed sets, the validator succeeds exactly when the leading
  bytes are one of the three signatures: \<open>FF D8 FF\<close>, \<open>89 50 4E 47\<close> or
  \<open>52 49 46 46\<close>. Which of the three does not depend on the declared type.
\<close>

theorem validate_signature:
  assumes "file_type f \<in> ALLOWED_TYPES"
    and "toLowerCase (extname (file_name f)) \<in> ALLOWED_EXTENSIONS"
    and "4 \<le> length (file_bytes f)"
  shows "validateFileType f \<longleftrightarrow>
           take 3 (file_bytes f) = signature_jpeg
         \<or> take 4 (file_bytes f) = signature_png
         \<or> take 4 (file_bytes f) = signature_webp"
proof -
  let ?b = "file_bytes f"
  have jpeg: "every_matches (take 3 ?b) signature_jpeg = (take 3 ?b = signature_jpeg)"
    using assms(3) by (intro every_matches_same_length) (simp add: signature_jpeg_def)
  have png: "every_matches (take 4 ?b) signature_png = (take 4 ?b = signature_png)"
    using assms(3) by (intro every_matches_same_length) (simp add: signature_png_def)
  have webp: "every_matches (take 4 ?b) signature_webp = (take 4 ?b = signature_webp)"
    using assms(3) by (intro every_matches_same_length) (simp add: signature_webp_def)
  show ?thesis
    by (simp add: validateFileType_allowed [OF assms(1,2)] jpeg png webp)
qed

theorem validate_signature_witness:
  "validateFileType
     \<lparr>file_name = js ''photo.PNG'', file_type = js ''image/png'',
      file_bytes = [0x89, 0x50, 0x4E, 0x47] @ replicate 2044 0\<rparr>
   \<and> \<not> validateFileType
     \<lparr>file_name = js ''notes.png'', file_type = js ''image/png'',
      file_bytes = [0x25, 0x50, 0x44, 0x46, 0x2D]\<rparr>"
proof -
  let ?f = "\<lparr>file_name = js ''photo.PNG'', file_type = js ''image/png'',
             file_bytes = [0x89, 0x50, 0x4E, 0x47] @ replicate 2044 (0::byte)\<rparr>"
  let ?g = "\<lparr>file_name = js ''notes.png'', file_type = js ''image/png'',
             file_bytes = [0x25, 0x50, 0x44, 0x46, 0x2D :: byte]\<rparr>"
  have f: "file_type ?f \<in> ALLOWED_TYPES"
       "toLowerCase (extname (file_name ?f)) \<in> ALLOWED_EXTENSIONS"
       "4 \<le> length (file_bytes ?f)"
    and g: "file_type ?g \<in> ALLOWED_TYPES"
       "toLowerCase (extname (file_name ?g)) \<in> ALLOWED_EXTENSIONS"
       "4 \<le> length (file_bytes ?g)"
    by (simp_all add: validator_eval)
  show ?thesis
    using validate_signature [OF f] validate_signature [OF g]
    by (simp add: signature_jpeg_def signature_png_def signature_webp_def)
qed

text \<open>A request that the rate limiter lets through, with the upload directory in place
  and the form data read, whose \<open>file\<close> field is missing or is not a \<open>File\<close>, is
  rejected with code \<open>INVALID_FILE\<close> and status 400.\<close>

lemma missing_file_rejected:
  assumes "fst (checkRateLimit (env_now env) (client_ip req) rl)"
    and "env_mkdir env = None"
    and "req_form req = Inr None \<or> (\<exists>s. req_form req = Inr (Some (FormString s)))"
  shows "fst (POST_p0 env req rl) =
           \<lparr>status = 400,
            body = failure_body (js ''No file provided or invalid file format'') None
                     (Some (js ''INVALID_FILE''))\<rparr>"
  using assms(2,3) unfolding POST_p0_allowed [OF assms(1)]
  by (auto simp: upload_p0_def catch_upload_def)

text \<open>
  C2. An empty file named \<open>empty.png\<close> and declared \<open>image/png\<close> passes the
  validator: the comparison of its first bytes with a signature runs over no bytes and
  is true. The handler of \<open>unnamed/part_000\<close> stores it and answers with status 200,
  where the claim has a rejection with \<open>INVALID_FILE\<close> and status 400. An empty file
  whose type and extension are not allowed is rejected, with \<open>INVALID_FILE_TYPE\<close>.
\<close>

theorem empty_file_accepted:
  "validateFileType
     \<lparr>file_name = js ''empty.png'', file_type = js ''image/png'', file_bytes = []\<rparr>
 \<and> status (fst (POST_p0
       \<lparr>env_now = 1000, env_mkdir = None, env_name_now = 1000, env_name_rnd = [1, 2],
        env_writeFile = None, env_stat = Inr \<lparr>stats_size = 0, stats_mtime = 1000\<rparr>\<rparr>
       \<lparr>req_forwarded_for = Some (js ''10.0.0.1''),
        req_form = Inr (Some (FormFile
          \<lparr>file_name = js ''empty.png'', file_type = js ''image/png'', file_bytes = []\<rparr>))\<rparr>
       Map.empty)) = 200
 \<and> b_success (body (fst (POST_p0
       \<lparr>env_now = 1000, env_mkdir = None, env_name_now = 1000, env_name_rnd = [1, 2],
        env_writeFile = None, env_stat = Inr \<lparr>stats_size = 0, stats_mtime = 1000\<rparr>\<rparr>
       \<lparr>req_forwarded_for = Some (js ''10.0.0.1''),
        req_form = Inr (Some (FormFile
          \<lparr>file_name = js ''empty.png'', file_type = js ''image/png'', file_bytes = []\<rparr>))\<rparr>
       Map.empty)))
 \<and> fst (POST_p0
       \<lparr>env_now = 1000, env_mkdir = None, env_name_now = 1000, env_name_rnd = [1, 2],
        env_writeFile = None, env_stat = Inr \<lparr>stats_size = 0, stats_mtime = 1000\<rparr>\<rparr>
       \<lparr>req_forwarded_for = Some (js ''10.0.0.1''),
        req_form = Inr (Some (FormFile
          \<lparr>file_name = js ''empty.txt'', file_type = js ''text/plain'', file_bytes = []\<rparr>))\<rparr>
       Map.empty)
   = \<lparr>status = 400,
      body = failure_body
               (js ''Invalid file type. Only JPEG, PNG, and WebP files are allowed.'') None
               (Some (js ''INVALID_FILE_TYPE''))\<rparr>"
  by (simp add: handler_eval validator_eval)

theorem empty_file_accepted_witness:
  "validateFileType
     \<lparr>file_name = js ''empty.png'', file_type = js ''image/png'', file_bytes = []\<rparr>"
  using empty_file_accepted by (rule conjunct1)




text \<open>
  C8, as stated, fails: \<open>app/api/upload/route.ts\<close> rejects a file of 10485761 bytes
  with status 400 and the size message, but its body has no code \<open>FILE_TOO_LARGE\<close>.
\<close>

theorem oversize_rejected_counterexample:
  "POST_route
     \<lparr>env_now = 1000, env_mkdir = None, env_name_now = 1000, env_name_rnd = [1, 2],
      env_writeFile = None, env_stat = Inr \<lparr>stats_size = 0, stats_mtime = 1000\<rparr>\<rparr>
     \<lparr>req_forwarded_for = Some (js ''10.0.0.1''),
      req_form = Inr (Some (FormFile
        \<lparr>file_name = js ''big.png'', file_type = js ''image/png'',
         file_bytes = [0x89, 0x50, 0x4E, 0x47] @ replicate 10485757 0\<rparr>))\<rparr>
   = \<lparr>status = 400,
      body = \<lparr>b_success = False, b_filename = None, b_url = None, b_size = None,
               b_type = None, b_data = None,
               b_error = Some (js ''File size exceeds maximum limit of 10MB''),
               b_details = None, b_code = None\<rparr>\<rparr>"
  by (simp add: handler_eval size_limit_message_eval)

text \<open>
  C8, amended. For a request that reaches the size check (let through by the rate
  limiter, upload directory in place, form data read, a \<open>File\<close> in the \<open>file\<close>
  field): a file of more than \<open>10 * 1024 * 1024\<close> bytes is rejected with status 400,
  whatever its content, with code \<open>FILE_TOO_LARGE\<close> in \<open>unnamed/part_000\<close> and with
  the size message and no code in \<open>app/api/upload/route.ts\<close>; a file of at most that
  size, so one of exactly that size, is not rejected by this check.
\<close>

theorem oversize_rejected:
  assumes "fst (checkRateLimit (env_now env) (client_ip req) rl)"
    and "env_mkdir env = None"
    and "req_form req = Inr (Some (FormFile f))"
  shows "(MAX_FILE_SIZE < file_size f \<longrightarrow>
            fst (POST_p0 env req rl) =
              \<lparr>status = 400,
               body = failure_body size_limit_message None (Some (js ''FILE_TOO_LARGE''))\<rparr>
          \<and> POST_route env req =
              \<lparr>status = 400, body = failure_body size_limit_message None None\<rparr>)
       \<and> (file_size f \<le> MAX_FILE_SIZE \<longrightarrow>
            b_code (body (fst (POST_p0 env req rl))) \<noteq> Some (js ''FILE_TOO_LARGE'')
          \<and> b_error (body (POST_route env req)) \<noteq> Some size_limit_message)"
proof (intro conjI impI)
  assume big: "MAX_FILE_SIZE < file_size f"
  show "fst (POST_p0 env req rl) =
          \<lparr>status = 400,
           body = failure_body size_limit_message None (Some (js ''FILE_TOO_LARGE''))\<rparr>"
    using assms(2,3) big unfolding POST_p0_allowed [OF assms(1)]
    by (simp add: upload_p0_def catch_upload_def)
  show "POST_route env req = \<lparr>status = 400, body = failure_body size_limit_message None None\<rparr>"
    using assms(2,3) big by (simp add: POST_route_def)
next
  assume small: "file_size f \<le> MAX_FILE_SIZE"
  show "b_code (body (fst (POST_p0 env req rl))) \<noteq> Some (js ''FILE_TOO_LARGE'')"
    using assms(2,3) small unfolding POST_p0_allowed [OF assms(1)]
    by (simp add: upload_p0_def catch_upload_def failure_body_def success_body_def Let_def js_def
          split: option.splits sum.splits thrown.splits)
  show "b_error (body (POST_route env req)) \<noteq> Some size_limit_message"
    using assms(2,3) small
    by (simp add: POST_route_def failure_body_def success_body_def Let_def
          size_limit_message_eval js_def
          split: option.splits sum.splits thrown.splits)
qed

theorem oversize_rejected_witness:
  "fst (POST_p0
     \<lparr>env_now = 1000, env_mkdir = None, env_name_now = 1000, env_name_rnd = [1, 2],
      env_writeFile = None, env_stat = Inr \<lparr>stats_size = 10485760, stats_mtime = 1000\<rparr>\<rparr>
     \<lparr>req_forwarded_for = Some (js ''10.0.0.1''),
      req_form = Inr (Some (FormFile
        \<lparr>file_name = js ''big.png'', file_type = js ''image/png'',
         file_bytes = [0x89, 0x50, 0x4E, 0x47] @ replicate 10485757 0\<rparr>))\<rparr>
     Map.empty)
   = \<lparr>status = 400,
      body = failure_body size_limit_message None (Some (js ''FILE_TOO_LARGE''))\<rparr>
 \<and> b_code (body (fst (POST_p0
     \<lparr>env_now = 1000, env_mkdir = None, env_name_now = 1000, env_name_rnd = [1, 2],
      env_writeFile = None, env_stat = Inr \<lparr>stats_size = 10485760, stats_mtime = 1000\<rparr>\<rparr>
     \<lparr>req_forwarded_for = Some (js ''10.0.0.1''),
      req_form = Inr (Some (FormFile
        \<lparr>file_name = js ''full.png'', file_type = js ''image/png'',
         file_bytes = [0x89, 0x50, 0x4E, 0x47] @ replicate 10485756 0\<rparr>))\<rparr>
     Map.empty))) \<noteq> Some (js ''FILE_TOO_LARGE'')"
proof -
  let ?E = "\<lparr>env_now = 1000, env_mkdir = None, env_name_now = 1000, env_name_rnd = [1, 2],
      env_writeFile = None, env_stat = Inr \<lparr>stats_size = 10485760, stats_mtime = 1000\<rparr>\<rparr>"
  let ?big = "\<lparr>file_name = js ''big.png'', file_type = js ''image/png'',
         file_bytes = [0x89, 0x50, 0x4E, 0x47] @ replicate 10485757 (0::byte)\<rparr>"
  let ?full = "\<lparr>file_name = js ''full.png'', file_type = js ''image/png'',
         file_bytes = [0x89, 0x50, 0x4E, 0x47] @ replicate 10485756 (0::byte)\<rparr>"
  let ?R = "\<lambda>f. \<lparr>req_forwarded_for = Some (js ''10.0.0.1''), req_form = Inr (Some (FormFile f))\<rparr>"
  have big: "fst (checkRateLimit (env_now ?E) (client_ip (?R ?big)) Map.empty)"
       "env_mkdir ?E = None" "req_form (?R ?big) = Inr (Some (FormFile ?big))"
    and full: "fst (checkRateLimit (env_now ?E) (client_ip (?R ?full)) Map.empty)"
       "env_mkdir ?E = None" "req_form (?R ?full) = Inr (Some (FormFile ?full))"
    and sizes: "MAX_FILE_SIZE < file_size ?big" "file_size ?full \<le> MAX_FILE_SIZE"
    by (simp_all add: checkRateLimit_def client_ip_def WINDOW_MS_def MAX_REQUESTS_def Let_def
          file_size_def MAX_FILE_SIZE_def)
  show ?thesis
    using oversize_rejected [OF big] oversize_rejected [OF full] sizes by blast
qed

section \<open>Properties of the retention sweeper\<close>

lemma cleanupUploads_left:
  "fst (cleanupUploads now files) = filter (\<lambda>f. \<not> (due now f \<and> d_unlink_ok f)) files"
proof -
  have "(sweep_entry now f \<noteq> Deleted) = (\<not> (due now f \<and> d_unlink_ok f))" for f
    by (simp add: sweep_entry_def due_def Let_def split: option.splits)
  then show ?thesis by (simp add: cleanupUploads_def)
qed

lemma cleanupOldFiles_loop_no_failure:
  assumes "\<forall>f\<in>set files. d_mtimeMs f \<noteq> None \<and> (due now f \<longrightarrow> d_unlink_ok f)"
  shows "cleanupOldFiles_loop now files = (True, filter (\<lambda>f. \<not> due now f) files)"
  using assms by (induction files) (auto simp: due_def)

lemma cleanupOldFiles_loop_failed_delete:
  assumes "due now f" and "\<not> d_unlink_ok f"
  shows "cleanupOldFiles_loop now (f # files) = (False, f # files)"
  using assms by (auto simp: due_def split: option.splits)

text \<open>
  C5. A directory with a due file that cannot be deleted, a second due file and a fresh
  one, swept 25 hours after the first two were written and one hour after the third.
  \<open>cleanupOldFiles\<close> of \<open>unnamed/part_000\<close> stops at the first file: the second due
  file is still there, and only the abort is logged. \<open>cleanupUploads\<close> of
  \<open>src/utils/cleanup.ts\<close> logs the failure and deletes the second file. Without the
  failing file, \<open>cleanupOldFiles\<close> deletes the due file and keeps the fresh one.
\<close>

theorem sweep_aborts_on_failed_delete:
  "cleanupOldFiles 90000000
     [\<lparr>d_name = js ''locked.png'', d_mtimeMs = Some 0, d_unlink_ok = False\<rparr>,
      \<lparr>d_name = js ''old.png'', d_mtimeMs = Some 0, d_unlink_ok = True\<rparr>,
      \<lparr>d_name = js ''new.png'', d_mtimeMs = Some 86400000, d_unlink_ok = True\<rparr>]
   = ([\<lparr>d_name = js ''locked.png'', d_mtimeMs = Some 0, d_unlink_ok = False\<rparr>,
       \<lparr>d_name = js ''old.png'', d_mtimeMs = Some 0, d_unlink_ok = True\<rparr>,
       \<lparr>d_name = js ''new.png'', d_mtimeMs = Some 86400000, d_unlink_ok = True\<rparr>],
      [Cleanup_error])
 \<and> cleanupUploads 90000000
     [\<lparr>d_name = js ''locked.png'', d_mtimeMs = Some 0, d_unlink_ok = False\<rparr>,
      \<lparr>d_name = js ''old.png'', d_mtimeMs = Some 0, d_unlink_ok = True\<rparr>,
      \<lparr>d_name = js ''new.png'', d_mtimeMs = Some 86400000, d_unlink_ok = True\<rparr>]
   = ([\<lparr>d_name = js ''locked.png'', d_mtimeMs = Some 0, d_unlink_ok = False\<rparr>,
       \<lparr>d_name = js ''new.png'', d_mtimeMs = Some 86400000, d_unlink_ok = True\<rparr>],
      [Failed_to_delete (js ''locked.png''), Cleaned (js ''old.png'')])
 \<and> cleanupOldFiles 90000000
     [\<lparr>d_name = js ''old.png'', d_mtimeMs = Some 0, d_unlink_ok = True\<rparr>,
      \<lparr>d_name = js ''new.png'', d_mtimeMs = Some 86400000, d_unlink_ok = True\<rparr>]
   = ([\<lparr>d_name = js ''new.png'', d_mtimeMs = Some 86400000, d_unlink_ok = True\<rparr>], [])"
  by (simp add: cleanupOldFiles_def cleanupUploads_def sweep_entry_def entry_log_def
        MAX_AGE_def Let_def)

section \<open>Properties of the processing handler\<close>

lemma process_loop_tool_fails:
  assumes "(f, io) \<in> set files"
    and "\<not> io_execAsync_ok io (convert_command path_join uploadDir processedDir cfg io f)"
  shows "process_loop path_join uploadDir processedDir cfg files processedFiles = Inl ()"
  using assms
proof (induction files arbitrary: processedFiles)
  case Nil
  then show ?case by simp
next
  case (Cons entry files)
  obtain g jo where entry: "entry = (g, jo)" by (cases entry)
  show ?case
  proof (cases "(f, io) = entry")
    case True
    with entry Cons.prems(2) show ?thesis by simp
  next
    case False
    with Cons.prems(1) have "(f, io) \<in> set files" by simp
    then have "process_loop path_join uploadDir processedDir cfg files acc = Inl ()" for acc
      using Cons.prems(2) by (rule Cons.IH)
    then show ?thesis by (simp add: entry)
  qed
qed

text \<open>
  C6. When the conversion command fails on any one file of a batch, the response is
  status 500 with the message \<open>Failed to process images\<close> and nothing else: the
  descriptors collected for the files before it are dropped.
\<close>

theorem process_batch_aborts:
  assumes "pe_mkdir env = Some (uploadDir, processedDir)"
    and "entry \<in> set files"
    and "tool_fails env uploadDir processedDir cfg entry"
  shows "POST_process env (Some cfg) files =
           \<lparr>p_status = 500, p_body = Process_error (js ''Failed to process images'')\<rparr>"
proof -
  obtain f io where entry: "entry = (f, io)" by (cases entry)
  have "process_loop (pe_path_join env) uploadDir processedDir cfg files [] = Inl ()"
    using assms(2,3) unfolding entry tool_fails_def
    by (intro process_loop_tool_fails [of f io]) simp_all
  moreover have "files \<noteq> []" using assms(2) by auto
  ultimately show ?thesis
    using assms(1) by (simp add: POST_process_def process_failed_def)
qed

theorem process_batch_aborts_witness:
  "POST_process
     \<lparr>pe_path_join = (\<lambda>dir name. dir @ [SLASH] @ name), pe_formData_ok = True,
      pe_mkdir = Some (js ''/app/public/uploads'', js ''/app/public/processed'')\<rparr>
     (Some \<lparr>cfg_resize = True, cfg_dimensions = Some (js ''100'', js ''100''),
            cfg_colorCorrection = False, cfg_outputFormat = js ''JPG''\<rparr>)
     [(\<lparr>file_name = js ''a.png'', file_type = js ''image/png'', file_bytes = [0x89, 0x50]\<rparr>,
       \<lparr>io_now = 1000, io_rnd = [1], io_writeFile_ok = True,
        io_execAsync_ok = (\<lambda>command. True), io_unlink_ok = True\<rparr>),
      (\<lparr>file_name = js ''b.png'', file_type = js ''image/png'', file_bytes = [0x00]\<rparr>,
       \<lparr>io_now = 1001, io_rnd = [2], io_writeFile_ok = True,
        io_execAsync_ok = (\<lambda>command. False), io_unlink_ok = True\<rparr>)]
   = \<lparr>p_status = 500, p_body = Process_error (js ''Failed to process images'')\<rparr>"
  by (rule process_batch_aborts
        [where uploadDir = "js ''/app/public/uploads''"
           and processedDir = "js ''/app/public/processed''"
           and entry = "(\<lparr>file_name = js ''b.png'', file_type = js ''image/png'',
                            file_bytes = [0x00]\<rparr>,
                         \<lparr>io_now = 1001, io_rnd = [2], io_writeFile_ok = True,
                           io_execAsync_ok = (\<lambda>command. False), io_unlink_ok = True\<rparr>)"])
     (simp_all add: tool_fails_def)

end
